theory Spec2Isabelle
  imports Main "HOL-Library.Multiset"
begin

section \<open>The note collection of server.js\<close>

text \<open>
  The handlers of \<^verbatim>\<open>server.js\<close> read and write one collection of note documents
  through the Mongoose model \<^verbatim>\<open>Note\<close>. The collection is modelled as the list of its
  documents in insertion order; a handler takes the collection and returns its response
  together with the collection it leaves behind.

  A document has the paths of \<^verbatim>\<open>noteSchema\<close>, the \<^verbatim>\<open>_id\<close> the driver assigns (field
  \<open>oid\<close>) and the two timestamps that the schema option \<^verbatim>\<open>timestamps: true\<close> adds.
  A \<^verbatim>\<open>Date\<close> is its number of milliseconds since the epoch; \<^verbatim>\<open>null\<close> is \<open>None\<close>.
  An \<open>objectid\<close> stands for an ObjectId. The \<^verbatim>\<open>:id\<close> of a request is a string.

  A driver call that throws ends in the handler's \<^verbatim>\<open>catch\<close>. Two such failures depend
  on the request and the collection and are part of the model: the cast of \<^verbatim>\<open>:id\<close> to an
  ObjectId, and the validation that \<^verbatim>\<open>save()\<close> runs. A database that cannot be reached
  makes every call throw; the collection here can always be reached.
\<close>

type_synonym objectid = nat
type_synonym date = int

record Note =
  oid :: objectid
  email :: string
  title :: string
  content :: string
  color :: string
  pinned :: bool
  archived :: bool
  deleted :: bool
  deletedAt :: "date option"
  createdAt :: date
  updatedAt :: date

type_synonym store = "Note list"

text \<open>
  \<^verbatim>\<open>req.body\<close>, restricted to the paths that \<^verbatim>\<open>noteSchema\<close> declares, each already of
  the schema's type. A path that the body does not carry is \<open>None\<close>; \<open>b_deletedAt\<close> can
  carry \<^verbatim>\<open>null\<close>, which is \<open>Some None\<close>. A body that carries \<^verbatim>\<open>null\<close> for another path
  is not of this type.
\<close>

record body =
  b_email :: "string option"
  b_title :: "string option"
  b_content :: "string option"
  b_color :: "string option"
  b_pinned :: "bool option"
  b_archived :: "bool option"
  b_deleted :: "bool option"
  b_deletedAt :: "date option option"

text \<open>The error answers of the note handlers: status 404, status 400 and status 500.\<close>

datatype error = NotFound | ValidationFailure | ServerError

text \<open>
  The cast of a request's \<^verbatim>\<open>:id\<close> to an ObjectId is done by the driver, which is not
  part of the repository: the handlers take it as a parameter. \<open>None\<close> is the
  \<^verbatim>\<open>CastError\<close> that the driver throws on a string that denotes no ObjectId.
\<close>

type_synonym cast = "string \<Rightarrow> objectid option"

subsection \<open>Driver operations\<close>

text \<open>\<^verbatim>\<open>Note.findById(id)\<close>: the document with that \<^verbatim>\<open>_id\<close>, or \<^verbatim>\<open>null\<close>.\<close>

fun findById :: "store \<Rightarrow> objectid \<Rightarrow> Note option" where
  "findById [] i = None"
| "findById (m # ms) i = (if oid m = i then Some m else findById ms i)"

text \<open>The write of one document: the stored document with the same \<^verbatim>\<open>_id\<close> is replaced.\<close>

fun updateOne :: "store \<Rightarrow> Note \<Rightarrow> store" where
  "updateOne [] d = []"
| "updateOne (m # ms) d = (if oid m = oid d then d # ms else m # updateOne ms d)"

text \<open>
  The validation of a document against \<^verbatim>\<open>noteSchema\<close>. Its one validator is
  \<^verbatim>\<open>required: true\<close> on \<^verbatim>\<open>email\<close>, which the empty string fails.
\<close>

definition validate :: "Note \<Rightarrow> bool" where
  "validate doc = (email doc \<noteq> [])"

text \<open>
  \<^verbatim>\<open>note.save()\<close> on a document that was loaded as \<open>loaded\<close> and assigned to since.
  Mongoose validates the document first and throws when the validation fails: \<open>None\<close>,
  with nothing written. Then it writes the modified paths only; when a path was
  modified, the timestamps option also sets \<^verbatim>\<open>updatedAt\<close> to the time of the save,
  \<open>ts\<close>. When every assignment stored the value the path already had, nothing is
  written.
\<close>

definition save :: "date \<Rightarrow> Note \<Rightarrow> Note \<Rightarrow> store \<Rightarrow> (Note \<times> store) option" where
  "save ts loaded doc s =
     (if \<not> validate doc then None
      else if doc = loaded then Some (doc, s)
      else (let d = doc\<lparr>updatedAt := ts\<rparr> in Some (d, updateOne s d)))"

subsection \<open>Trash handlers\<close>

text \<open>
  \<^verbatim>\<open>PUT /api/notes/:id/trash\<close>, with \<open>p\<close> the \<^verbatim>\<open>:id\<close> of the request. \<open>now\<close> is the value
  of \<^verbatim>\<open>new Date()\<close>, \<open>ts\<close> the time of the save. A throw of \<^verbatim>\<open>findById\<close> or of
  \<^verbatim>\<open>save\<close> ends in the \<^verbatim>\<open>catch\<close>, which answers 500.
\<close>

definition trash :: "cast \<Rightarrow> date \<Rightarrow> date \<Rightarrow> string \<Rightarrow> store \<Rightarrow> (error + Note) \<times> store" where
  "trash cast now ts p s =
     (case cast p of
        None \<Rightarrow> (Inl ServerError, s)
      | Some i \<Rightarrow>
          (case findById s i of
             None \<Rightarrow> (Inl NotFound, s)
           | Some note \<Rightarrow>
               (case save ts note (note\<lparr>deleted := True, deletedAt := Some now\<rparr>) s of
                  None \<Rightarrow> (Inl ServerError, s)
                | Some (d, s') \<Rightarrow> (Inr d, s'))))"

text \<open>\<^verbatim>\<open>PUT /api/notes/:id/restore\<close>.\<close>

definition restore :: "cast \<Rightarrow> date \<Rightarrow> string \<Rightarrow> store \<Rightarrow> (error + Note) \<times> store" where
  "restore cast ts p s =
     (case cast p of
        None \<Rightarrow> (Inl ServerError, s)
      | Some i \<Rightarrow>
          (case findById s i of
             None \<Rightarrow> (Inl NotFound, s)
           | Some note \<Rightarrow>
               (case save ts note (note\<lparr>deleted := False, deletedAt := None\<rparr>) s of
                  None \<Rightarrow> (Inl ServerError, s)
                | Some (d, s') \<Rightarrow> (Inr d, s'))))"

subsection \<open>Toggle handlers\<close>

text \<open>\<^verbatim>\<open>PATCH /api/notes/:id/pin\<close>.\<close>

definition togglePin :: "cast \<Rightarrow> date \<Rightarrow> string \<Rightarrow> store \<Rightarrow> (error + Note) \<times> store" where
  "togglePin cast ts p s =
     (case cast p of
        None \<Rightarrow> (Inl ServerError, s)
      | Some i \<Rightarrow>
          (case findById s i of
             None \<Rightarrow> (Inl NotFound, s)
           | Some note \<Rightarrow>
               (case save ts note (note\<lparr>pinned := \<not> pinned note\<rparr>) s of
                  None \<Rightarrow> (Inl ServerError, s)
                | Some (d, s') \<Rightarrow> (Inr d, s'))))"

text \<open>\<^verbatim>\<open>PATCH /api/notes/:id/archive\<close>.\<close>

definition toggleArchive :: "cast \<Rightarrow> date \<Rightarrow> string \<Rightarrow> store \<Rightarrow> (error + Note) \<times> store" where
  "toggleArchive cast ts p s =
     (case cast p of
        None \<Rightarrow> (Inl ServerError, s)
      | Some i \<Rightarrow>
          (case findById s i of
             None \<Rightarrow> (Inl NotFound, s)
           | Some note \<Rightarrow>
               (case save ts note (note\<lparr>archived := \<not> archived note\<rparr>) s of
                  None \<Rightarrow> (Inl ServerError, s)
                | Some (d, s') \<Rightarrow> (Inr d, s'))))"

subsection \<open>Create, partial update and permanent delete\<close>

definition or_default :: "'a option \<Rightarrow> 'a \<Rightarrow> 'a" where
  "or_default v d = (case v of None \<Rightarrow> d | Some x \<Rightarrow> x)"

text \<open>
  \<^verbatim>\<open>POST /api/notes\<close>. The handler passes six paths of the body to \<^verbatim>\<open>new Note\<close>; a path
  that is absent takes the default of \<^verbatim>\<open>noteSchema\<close>, and \<^verbatim>\<open>deleted\<close> and \<^verbatim>\<open>deletedAt\<close>
  always do. \<^verbatim>\<open>email\<close> is required: without it (or with the empty string) the save
  fails validation and the \<^verbatim>\<open>catch\<close> of this handler answers 400. \<open>new_id\<close> is the \<^verbatim>\<open>_id\<close> that the
  driver generates, \<open>now\<close> the time of the save.
\<close>

definition createNote :: "objectid \<Rightarrow> date \<Rightarrow> body \<Rightarrow> store \<Rightarrow> (error + Note) \<times> store" where
  "createNote new_id now b s =
     (case b_email b of
        None \<Rightarrow> (Inl ValidationFailure, s)
      | Some e \<Rightarrow>
          if e = [] then (Inl ValidationFailure, s)
          else (let newNote = \<lparr>oid = new_id, email = e,
                      title = or_default (b_title b) [],
                      content = or_default (b_content b) [],
                      color = or_default (b_color b) ''#ffffff'',
                      pinned = or_default (b_pinned b) False,
                      archived = or_default (b_archived b) False,
                      deleted = False, deletedAt = None,
                      createdAt = now, updatedAt = now\<rparr>
                in (Inr newNote, s @ [newNote])))"

text \<open>The update document \<^verbatim>\<open>{ $set: req.body }\<close> applied to a stored document.\<close>

definition apply_set :: "body \<Rightarrow> Note \<Rightarrow> Note" where
  "apply_set b n =
     n\<lparr>email := or_default (b_email b) (email n),
       title := or_default (b_title b) (title n),
       content := or_default (b_content b) (content n),
       color := or_default (b_color b) (color n),
       pinned := or_default (b_pinned b) (pinned n),
       archived := or_default (b_archived b) (archived n),
       deleted := or_default (b_deleted b) (deleted n),
       deletedAt := or_default (b_deletedAt b) (deletedAt n)\<rparr>"

text \<open>
  \<^verbatim>\<open>PUT /api/notes/:id\<close>: \<^verbatim>\<open>findByIdAndUpdate(id, { $set: req.body }, { new: true })\<close>.
  The timestamps option adds \<^verbatim>\<open>updatedAt\<close> to the update. The update runs no
  validator, so it can store an empty \<^verbatim>\<open>email\<close>. The \<^verbatim>\<open>catch\<close> of this handler
  answers 400.
\<close>

definition updateNote :: "cast \<Rightarrow> date \<Rightarrow> string \<Rightarrow> body \<Rightarrow> store \<Rightarrow> (error + Note) \<times> store" where
  "updateNote cast now p b s =
     (case cast p of
        None \<Rightarrow> (Inl ValidationFailure, s)
      | Some i \<Rightarrow>
          (case findById s i of
             None \<Rightarrow> (Inl NotFound, s)
           | Some n \<Rightarrow>
               (let updatedNote = (apply_set b n)\<lparr>updatedAt := now\<rparr>
                in (Inr updatedNote, updateOne s updatedNote))))"

text \<open>The removal of one document: the stored document with that \<^verbatim>\<open>_id\<close>.\<close>

fun deleteOne :: "store \<Rightarrow> objectid \<Rightarrow> store" where
  "deleteOne [] i = []"
| "deleteOne (m # ms) i = (if oid m = i then ms else m # deleteOne ms i)"

text \<open>
  \<^verbatim>\<open>DELETE /api/notes/:id\<close>: \<^verbatim>\<open>findByIdAndDelete(id)\<close>; the answer carries a message
  only, and the \<^verbatim>\<open>catch\<close> answers 500.
\<close>

definition deleteNote :: "cast \<Rightarrow> string \<Rightarrow> store \<Rightarrow> (error + unit) \<times> store" where
  "deleteNote cast p s =
     (case cast p of
        None \<Rightarrow> (Inl ServerError, s)
      | Some i \<Rightarrow>
          (case findById s i of
             None \<Rightarrow> (Inl NotFound, s)
           | Some deletedNote \<Rightarrow> (Inr (), deleteOne s i)))"

subsection \<open>Listing the active notes of a user\<close>

text \<open>
  A sort of the driver, by insertion: \<open>le a b\<close> says that \<open>a\<close> may stand before \<open>b\<close>.
  Documents that the sort specification does not tell apart keep their order in the
  collection.
\<close>

fun insort_by :: "('a \<Rightarrow> 'a \<Rightarrow> bool) \<Rightarrow> 'a \<Rightarrow> 'a list \<Rightarrow> 'a list" where
  "insort_by le x [] = [x]"
| "insort_by le x (y # ys) = (if le x y then x # y # ys else y # insort_by le x ys)"

definition sort_by :: "('a \<Rightarrow> 'a \<Rightarrow> bool) \<Rightarrow> 'a list \<Rightarrow> 'a list" where
  "sort_by le xs = foldr (insort_by le) xs []"

text \<open>
  The sort specification \<^verbatim>\<open>{ pinned: -1, createdAt: -1 }\<close>: descending on \<^verbatim>\<open>pinned\<close>
  (\<^verbatim>\<open>true\<close> above \<^verbatim>\<open>false\<close>), and descending on \<^verbatim>\<open>createdAt\<close> among documents with
  the same \<^verbatim>\<open>pinned\<close>.
\<close>

definition pinned_createdAt_desc :: "Note \<Rightarrow> Note \<Rightarrow> bool" where
  "pinned_createdAt_desc a b =
     (if pinned a = pinned b then createdAt b \<le> createdAt a else pinned a)"

text \<open>
  \<^verbatim>\<open>GET /api/notes/:email\<close>:
  \<^verbatim>\<open>Note.find({ email, deleted: false }).sort({ pinned: -1, createdAt: -1 })\<close>.
\<close>

definition getNotesByEmail :: "store \<Rightarrow> string \<Rightarrow> Note list" where
  "getNotesByEmail s e =
     sort_by pinned_createdAt_desc (filter (\<lambda>n. email n = e \<and> deleted n = False) s)"

subsection \<open>The purge job\<close>

text \<open>
  \<^verbatim>\<open>Number(process.env.TRASH_RETENTION_DAYS) || 7\<close>. The argument is the whole number
  that the setting denotes, \<open>None\<close> when it is unset or not a number; \<^verbatim>\<open>||\<close> replaces
  \<^verbatim>\<open>NaN\<close> and \<^verbatim>\<open>0\<close> by 7.
\<close>

definition TRASH_RETENTION_DAYS :: "int option \<Rightarrow> int" where
  "TRASH_RETENTION_DAYS env = (case env of None \<Rightarrow> 7 | Some d \<Rightarrow> if d = 0 then 7 else d)"

text \<open>
  \<^verbatim>\<open>new Date(Date.now() - TRASH_RETENTION_DAYS * 24 * 60 * 60 * 1000)\<close>. JavaScript
  computes on whole numbers of this size without rounding.
\<close>

definition purge_cutoff :: "int \<Rightarrow> date \<Rightarrow> date" where
  "purge_cutoff days now = now - days * 24 * 60 * 60 * 1000"

text \<open>
  The query \<^verbatim>\<open>{ deleted: true, deletedAt: { $lte: cutoff } }\<close>. A comparison with a date
  matches dates only: a \<^verbatim>\<open>deletedAt\<close> that is \<^verbatim>\<open>null\<close> does not match.
\<close>

definition purge_query :: "date \<Rightarrow> Note \<Rightarrow> bool" where
  "purge_query cutoff n =
     (deleted n = True \<and> (case deletedAt n of None \<Rightarrow> False | Some t \<Rightarrow> t \<le> cutoff))"

text \<open>\<^verbatim>\<open>Note.deleteMany(q)\<close>: \<^verbatim>\<open>deletedCount\<close> and the collection left.\<close>

definition deleteMany :: "(Note \<Rightarrow> bool) \<Rightarrow> store \<Rightarrow> nat \<times> store" where
  "deleteMany q s = (length (filter q s), filter (\<lambda>n. \<not> q n) s)"

text \<open>One run of the job that \<^verbatim>\<open>cron.schedule\<close> registers, at time \<open>now\<close>.\<close>

definition purge :: "int option \<Rightarrow> date \<Rightarrow> store \<Rightarrow> nat \<times> store" where
  "purge env now s =
     deleteMany (purge_query (purge_cutoff (TRASH_RETENTION_DAYS env) now)) s"

subsection \<open>The invariant of the trash fields\<close>

definition note_inv :: "Note \<Rightarrow> bool" where
  "note_inv n = (deleted n = (deletedAt n \<noteq> None))"

definition store_inv :: "store \<Rightarrow> bool" where
  "store_inv s = list_all note_inv s"

text \<open>A body that sets neither trash field, or sets both so that they agree.\<close>

definition body_keeps_inv :: "body \<Rightarrow> bool" where
  "body_keeps_inv b =
     (case (b_deleted b, b_deletedAt b) of
        (None, None) \<Rightarrow> True
      | (Some d, Some t) \<Rightarrow> d = (t \<noteq> None)
      | _ \<Rightarrow> False)"

subsection \<open>Sample requests and documents\<close>

text \<open>
  A cast for the samples, that of current drivers: a string of 24 hexadecimal digits
  denotes the ObjectId with that value, and no other string denotes one.
\<close>

definition hex_digit :: "char \<Rightarrow> nat option" where
  "hex_digit c = map_of
     [(CHR ''0'', 0), (CHR ''1'', 1), (CHR ''2'', 2), (CHR ''3'', 3), (CHR ''4'', 4),
      (CHR ''5'', 5), (CHR ''6'', 6), (CHR ''7'', 7), (CHR ''8'', 8), (CHR ''9'', 9),
      (CHR ''a'', 10), (CHR ''b'', 11), (CHR ''c'', 12), (CHR ''d'', 13), (CHR ''e'', 14),
      (CHR ''f'', 15), (CHR ''A'', 10), (CHR ''B'', 11), (CHR ''C'', 12), (CHR ''D'', 13),
      (CHR ''E'', 14), (CHR ''F'', 15)] c"

fun hex_value :: "nat \<Rightarrow> string \<Rightarrow> nat option" where
  "hex_value acc [] = Some acc"
| "hex_value acc (c # cs) =
     (case hex_digit c of None \<Rightarrow> None | Some d \<Rightarrow> hex_value (16 * acc + d) cs)"

definition castObjectId :: cast where
  "castObjectId p = (if length p = 24 then hex_value 0 p else None)"

definition id_1 :: string where
  "id_1 = ''000000000000000000000001''"

definition id_2 :: string where
  "id_2 = ''000000000000000000000002''"

definition id_7 :: string where
  "id_7 = ''000000000000000000000007''"

definition note_a :: Note where
  "note_a = \<lparr>oid = 1, email = ''u@e.com'', title = ''A'', content = ''x'',
     color = ''#ffffff'', pinned = False, archived = False, deleted = False,
     deletedAt = None, createdAt = 100, updatedAt = 100\<rparr>"

definition note_b :: Note where
  "note_b = \<lparr>oid = 2, email = ''u@e.com'', title = ''B'', content = ''y'',
     color = ''#ffffff'', pinned = True, archived = False, deleted = True,
     deletedAt = Some 150, createdAt = 120, updatedAt = 150\<rparr>"

text \<open>A note with \<open>deleted = true\<close> and no \<open>deletedAt\<close>, as a partial update can leave it.\<close>

definition note_c :: Note where
  "note_c = \<lparr>oid = 3, email = ''v@e.com'', title = ''C'', content = ''z'',
     color = ''#ffffff'', pinned = False, archived = True, deleted = True,
     deletedAt = None, createdAt = 130, updatedAt = 160\<rparr>"

definition note_d :: Note where
  "note_d = \<lparr>oid = 4, email = ''u@e.com'', title = ''D'', content = ''w'',
     color = ''#ffff00'', pinned = False, archived = False, deleted = False,
     deletedAt = None, createdAt = 140, updatedAt = 140\<rparr>"

text \<open>
  The note that \<^verbatim>\<open>PUT /api/notes/:id\<close> with the body \<^verbatim>\<open>{ "email": "" }\<close> makes of
  \<open>note_a\<close>, and the same note in the trash.
\<close>

definition note_e :: Note where
  "note_e = note_a\<lparr>email := [], updatedAt := 160\<rparr>"

definition note_f :: Note where
  "note_f = note_e\<lparr>deleted := True, deletedAt := Some 150\<rparr>"

definition empty_body :: body where
  "empty_body = \<lparr>b_email = None, b_title = None, b_content = None, b_color = None,
     b_pinned = None, b_archived = None, b_deleted = None, b_deletedAt = None\<rparr>"

definition body_deleted_only :: body where
  "body_deleted_only = empty_body\<lparr>b_deleted := Some True\<rparr>"

definition body_title_only :: body where
  "body_title_only = empty_body\<lparr>b_title := Some ''T''\<rparr>"

definition body_blank_email :: body where
  "body_blank_email = empty_body\<lparr>b_email := Some []\<rparr>"

section \<open>Facts about the driver operations\<close>

lemma findById_Some_oid: "findById s i = Some n \<Longrightarrow> oid n = i"
  by (induction s) (auto split: if_splits)

lemma findById_Some_mem: "findById s i = Some n \<Longrightarrow> n \<in> set s"
  by (induction s) (auto split: if_splits)

lemma findById_updateOne_same:
  "findById s (oid d) = Some n \<Longrightarrow> findById (updateOne s d) (oid d) = Some d"
  by (induction s) auto

lemma findById_updateOne_found:
  "findById s i = Some n \<Longrightarrow> oid d = i \<Longrightarrow> findById (updateOne s d) i = Some d"
  using findById_updateOne_same [of s d n] by simp

lemma updateOne_updateOne:
  "oid d' = oid d \<Longrightarrow> updateOne (updateOne s d) d' = updateOne s d'"
  by (induction s) auto

lemma save_invalid: "email doc = [] \<Longrightarrow> save ts n doc s = None"
  by (simp add: save_def validate_def)

lemma save_modified:
  "email doc \<noteq> [] \<Longrightarrow> doc \<noteq> n \<Longrightarrow>
   save ts n doc s = Some (doc\<lparr>updatedAt := ts\<rparr>, updateOne s (doc\<lparr>updatedAt := ts\<rparr>))"
  by (simp add: save_def validate_def Let_def)

lemma save_valid_Some: "email doc \<noteq> [] \<Longrightarrow> \<exists>d s'. save ts n doc s = Some (d, s')"
  by (simp add: save_def validate_def Let_def)

lemma save_Some_frame:
  "save ts n doc s = Some (d, s') \<Longrightarrow> d = doc\<lparr>updatedAt := updatedAt d\<rparr>"
  by (auto simp: save_def Let_def split: if_splits)

lemma save_Some_found:
  assumes "save ts n doc s = Some (d, s')" and "findById s i = Some n" and "oid doc = i"
  shows "findById s' i = Some d"
proof (cases "doc = n")
  case True
  with assms show ?thesis by (auto simp: save_def split: if_splits)
next
  case False
  with assms(1) have d: "d = doc\<lparr>updatedAt := ts\<rparr>" and s': "s' = updateOne s d"
    by (auto simp: save_def Let_def split: if_splits)
  from d assms(3) have "oid d = i" by simp
  with assms(2) s' show ?thesis by (simp add: findById_updateOne_found)
qed

lemma trash_found:
  assumes "cast p = Some i" and "findById s i = Some n"
  shows "trash cast now ts p s
    = (case save ts n (n\<lparr>deleted := True, deletedAt := Some now\<rparr>) s of
         None \<Rightarrow> (Inl ServerError, s) | Some (d, s') \<Rightarrow> (Inr d, s'))"
  using assms by (simp add: trash_def)

lemma restore_found:
  assumes "cast p = Some i" and "findById s i = Some n"
  shows "restore cast ts p s
    = (case save ts n (n\<lparr>deleted := False, deletedAt := None\<rparr>) s of
         None \<Rightarrow> (Inl ServerError, s) | Some (d, s') \<Rightarrow> (Inr d, s'))"
  using assms by (simp add: restore_def)

lemma pinned_flip_neq: "n\<lparr>pinned := \<not> pinned n\<rparr> \<noteq> n"
proof
  assume "n\<lparr>pinned := \<not> pinned n\<rparr> = n"
  then have "pinned (n\<lparr>pinned := \<not> pinned n\<rparr>) = pinned n" by simp
  then show False by simp
qed

lemma archived_flip_neq: "n\<lparr>archived := \<not> archived n\<rparr> \<noteq> n"
proof
  assume "n\<lparr>archived := \<not> archived n\<rparr> = n"
  then have "archived (n\<lparr>archived := \<not> archived n\<rparr>) = archived n" by simp
  then show False by simp
qed

lemma togglePin_found_valid:
  assumes "cast p = Some i" and "findById s i = Some n" and "email n \<noteq> []"
  shows "togglePin cast ts p s
    = (Inr (n\<lparr>pinned := \<not> pinned n, updatedAt := ts\<rparr>),
       updateOne s (n\<lparr>pinned := \<not> pinned n, updatedAt := ts\<rparr>))"
  using assms by (simp add: togglePin_def save_modified [OF _ pinned_flip_neq])

lemma togglePin_found_invalid:
  assumes "cast p = Some i" and "findById s i = Some n" and "email n = []"
  shows "togglePin cast ts p s = (Inl ServerError, s)"
  using assms by (simp add: togglePin_def save_invalid)

lemma toggleArchive_found_valid:
  assumes "cast p = Some i" and "findById s i = Some n" and "email n \<noteq> []"
  shows "toggleArchive cast ts p s
    = (Inr (n\<lparr>archived := \<not> archived n, updatedAt := ts\<rparr>),
       updateOne s (n\<lparr>archived := \<not> archived n, updatedAt := ts\<rparr>))"
  using assms by (simp add: toggleArchive_def save_modified [OF _ archived_flip_neq])

lemma toggleArchive_found_invalid:
  assumes "cast p = Some i" and "findById s i = Some n" and "email n = []"
  shows "toggleArchive cast ts p s = (Inl ServerError, s)"
  using assms by (simp add: toggleArchive_def save_invalid)

lemma cast_samples:
  "castObjectId id_1 = Some 1" "castObjectId id_2 = Some 2" "castObjectId id_7 = Some 7"
  "castObjectId ''abc'' = None"
  by (simp_all add: castObjectId_def id_1_def id_2_def id_7_def hex_digit_def)

section \<open>Facts about the sort\<close>

lemma mset_insort_by: "mset (insort_by le x xs) = add_mset x (mset xs)"
  by (induction xs) auto

lemma mset_sort_by: "mset (sort_by le xs) = mset xs"
  by (induction xs) (auto simp: sort_by_def mset_insort_by)

lemma set_insort_by: "set (insort_by le x xs) = insert x (set xs)"
  by (induction xs) auto

lemma set_sort_by: "set (sort_by le xs) = set xs"
  by (induction xs) (auto simp: sort_by_def set_insort_by)

lemma sorted_wrt_insort_by:
  assumes total: "\<And>a b. le a b \<or> le b a"
    and trans: "\<And>a b c. le a b \<Longrightarrow> le b c \<Longrightarrow> le a c"
  shows "sorted_wrt le xs \<Longrightarrow> sorted_wrt le (insort_by le x xs)"
proof (induction xs)
  case Nil
  then show ?case by simp
next
  case (Cons y ys)
  show ?case
  proof (cases "le x y")
    case True
    with Cons.prems trans show ?thesis by auto
  next
    case False
    with total have "le y x" by blast
    with Cons False show ?thesis by (auto simp: set_insort_by)
  qed
qed

lemma sorted_wrt_sort_by:
  assumes "\<And>a b. le a b \<or> le b a"
    and "\<And>a b c. le a b \<Longrightarrow> le b c \<Longrightarrow> le a c"
  shows "sorted_wrt le (sort_by le xs)"
proof (induction xs)
  case Nil
  then show ?case by (simp add: sort_by_def)
next
  case (Cons x xs)
  have "sorted_wrt le (insort_by le x (sort_by le xs))"
    using assms Cons by (rule sorted_wrt_insort_by)
  then show ?case by (simp add: sort_by_def)
qed

lemma pinned_createdAt_desc_total: "pinned_createdAt_desc a b \<or> pinned_createdAt_desc b a"
  by (auto simp: pinned_createdAt_desc_def)

lemma pinned_createdAt_desc_trans:
  "pinned_createdAt_desc a b \<Longrightarrow> pinned_createdAt_desc b c \<Longrightarrow> pinned_createdAt_desc a c"
  by (auto simp: pinned_createdAt_desc_def split: if_splits)

lemma pinned_createdAt_desc_iff:
  "pinned_createdAt_desc a b =
     (pinned a \<and> \<not> pinned b \<or> pinned a = pinned b \<and> createdAt b \<le> createdAt a)"
  by (auto simp: pinned_createdAt_desc_def)

section \<open>Facts about the invariant\<close>

lemma list_all_updateOne: "list_all P s \<Longrightarrow> P d \<Longrightarrow> list_all P (updateOne s d)"
  by (induction s) auto

lemma list_all_deleteOne: "list_all P s \<Longrightarrow> list_all P (deleteOne s i)"
  by (induction s) auto

lemma note_inv_updatedAt: "note_inv (n\<lparr>updatedAt := u\<rparr>) = note_inv n"
  by (simp add: note_inv_def)

lemma store_inv_findById: "store_inv s \<Longrightarrow> findById s i = Some n \<Longrightarrow> note_inv n"
  by (auto simp: store_inv_def list_all_iff dest: findById_Some_mem)

lemma store_inv_save:
  "store_inv s \<Longrightarrow> note_inv doc \<Longrightarrow>
   store_inv (snd (case save ts n doc s of
                     None \<Rightarrow> (Inl ServerError, s) | Some (d, s') \<Rightarrow> (Inr d, s')))"
  by (simp add: save_def Let_def store_inv_def list_all_updateOne note_inv_updatedAt)

lemma store_inv_trash: "store_inv s \<Longrightarrow> store_inv (snd (trash cast now ts p s))"
  by (simp add: trash_def store_inv_save note_inv_def split: option.splits)

lemma store_inv_restore: "store_inv s \<Longrightarrow> store_inv (snd (restore cast ts p s))"
  by (simp add: restore_def store_inv_save note_inv_def split: option.splits)

lemma store_inv_togglePin: "store_inv s \<Longrightarrow> store_inv (snd (togglePin cast ts p s))"
proof (cases "cast p")
  case None
  then show "store_inv s \<Longrightarrow> ?thesis" by (simp add: togglePin_def)
next
  case (Some i)
  assume inv: "store_inv s"
  show ?thesis
  proof (cases "findById s i")
    case None
    with Some inv show ?thesis by (simp add: togglePin_def)
  next
    case (Some n)
    with inv have "note_inv (n\<lparr>pinned := \<not> pinned n\<rparr>)"
      by (auto simp: note_inv_def dest: store_inv_findById)
    with inv have "store_inv (snd (case save ts n (n\<lparr>pinned := \<not> pinned n\<rparr>) s of
        None \<Rightarrow> (Inl ServerError, s) | Some (d, s') \<Rightarrow> (Inr d, s')))"
      by (rule store_inv_save)
    with Some \<open>cast p = Some i\<close> show ?thesis by (simp add: togglePin_def)
  qed
qed

lemma store_inv_toggleArchive: "store_inv s \<Longrightarrow> store_inv (snd (toggleArchive cast ts p s))"
proof (cases "cast p")
  case None
  then show "store_inv s \<Longrightarrow> ?thesis" by (simp add: toggleArchive_def)
next
  case (Some i)
  assume inv: "store_inv s"
  show ?thesis
  proof (cases "findById s i")
    case None
    with Some inv show ?thesis by (simp add: toggleArchive_def)
  next
    case (Some n)
    with inv have "note_inv (n\<lparr>archived := \<not> archived n\<rparr>)"
      by (auto simp: note_inv_def dest: store_inv_findById)
    with inv have "store_inv (snd (case save ts n (n\<lparr>archived := \<not> archived n\<rparr>) s of
        None \<Rightarrow> (Inl ServerError, s) | Some (d, s') \<Rightarrow> (Inr d, s')))"
      by (rule store_inv_save)
    with Some \<open>cast p = Some i\<close> show ?thesis by (simp add: toggleArchive_def)
  qed
qed

lemma store_inv_createNote: "store_inv s \<Longrightarrow> store_inv (snd (createNote new_id now b s))"
  by (simp add: createNote_def Let_def store_inv_def note_inv_def split: option.splits)

lemma store_inv_deleteNote: "store_inv s \<Longrightarrow> store_inv (snd (deleteNote cast p s))"
  by (simp add: deleteNote_def store_inv_def list_all_deleteOne split: option.splits)

lemma store_inv_purge: "store_inv s \<Longrightarrow> store_inv (snd (purge env now s))"
  by (simp add: purge_def deleteMany_def store_inv_def list_all_iff)

lemma note_inv_apply_set:
  "body_keeps_inv b \<Longrightarrow> note_inv n \<Longrightarrow> note_inv (apply_set b n)"
  by (auto simp: body_keeps_inv_def note_inv_def apply_set_def or_default_def
      split: option.splits)

lemma store_inv_updateNote:
  "body_keeps_inv b \<Longrightarrow> store_inv s \<Longrightarrow> store_inv (snd (updateNote cast now p b s))"
  by (auto simp: updateNote_def Let_def store_inv_def note_inv_updatedAt split: option.splits
      intro!: list_all_updateOne note_inv_apply_set dest: store_inv_findById [unfolded store_inv_def])

section \<open>Soft delete and restore\<close>

text \<open>
  Claim C4, as stated, fails in two places. An \<^verbatim>\<open>:id\<close> that is no ObjectId resolves to
  no note, yet the soft delete answers a server error, not NotFound. And on an existing
  note whose \<open>email\<close> is empty, as a partial update can leave it, the save fails
  validation: the soft delete answers a server error and sets neither field.
\<close>

theorem trash_server_error_counterexample:
  "castObjectId ''abc'' = None
   \<and> trash castObjectId 200 201 ''abc'' [note_a] = (Inl ServerError, [note_a])
   \<and> snd (updateNote castObjectId 160 id_1 body_blank_email [note_a]) = [note_e]
   \<and> castObjectId id_1 = Some 1 \<and> findById [note_e] 1 = Some note_e
   \<and> trash castObjectId 200 201 id_1 [note_e] = (Inl ServerError, [note_e])
   \<and> deleted note_e = False \<and> deletedAt note_e = None"
  by (simp add: cast_samples trash_def updateNote_def save_def validate_def apply_set_def
      or_default_def Let_def body_blank_email_def empty_body_def note_e_def note_a_def)

text \<open>
  Claim C4, amended. A soft delete of an id that casts to an ObjectId and resolves to a
  note \<open>n\<close> with a non-empty \<open>email\<close> answers with the saved document, which is the one
  then stored under the id, has \<open>deleted = true\<close> and \<open>deletedAt = now\<close>, and differs
  from \<open>n\<close> in no path but these two and \<open>updatedAt\<close>. A soft delete of an id that casts
  and does not resolve answers NotFound. A soft delete of an id that does not cast, or
  of a note whose \<open>email\<close> is empty, answers a server error. In the last three cases
  the collection is left as it was.
\<close>

theorem trash_sets_deleted_or_fails:
  "(cast p = Some i \<and> findById s i = Some n \<and> email n \<noteq> [] \<longrightarrow>
      (\<exists>d. fst (trash cast now ts p s) = Inr d
          \<and> findById (snd (trash cast now ts p s)) i = Some d
          \<and> deleted d = True \<and> deletedAt d = Some now
          \<and> d = n\<lparr>deleted := True, deletedAt := Some now, updatedAt := updatedAt d\<rparr>))
   \<and> (cast p = Some i \<and> findById s i = Some n \<and> email n = [] \<longrightarrow>
        trash cast now ts p s = (Inl ServerError, s))
   \<and> (cast p = Some i \<and> findById s i = None \<longrightarrow> trash cast now ts p s = (Inl NotFound, s))
   \<and> (cast p = None \<longrightarrow> trash cast now ts p s = (Inl ServerError, s))"
proof (intro conjI impI)
  assume a: "cast p = Some i \<and> findById s i = Some n \<and> email n \<noteq> []"
  let ?doc = "n\<lparr>deleted := True, deletedAt := Some now\<rparr>"
  from a have "email ?doc \<noteq> []" by simp
  then obtain d s' where sv: "save ts n ?doc s = Some (d, s')"
    using save_valid_Some by blast
  from a have o: "oid ?doc = i" by (auto dest: findById_Some_oid)
  have r: "trash cast now ts p s = (Inr d, s')"
    using a sv by (simp add: trash_found)
  have f: "findById s' i = Some d"
    using sv a o by (auto intro: save_Some_found)
  have e: "d = ?doc\<lparr>updatedAt := updatedAt d\<rparr>"
    using sv by (rule save_Some_frame)
  have v: "deleted d = True" "deletedAt d = Some now"
    by (subst e, simp)+
  show "\<exists>d. fst (trash cast now ts p s) = Inr d
          \<and> findById (snd (trash cast now ts p s)) i = Some d
          \<and> deleted d = True \<and> deletedAt d = Some now
          \<and> d = n\<lparr>deleted := True, deletedAt := Some now, updatedAt := updatedAt d\<rparr>"
    using r f v e by (intro exI [of _ d]) simp
next
  assume "cast p = Some i \<and> findById s i = Some n \<and> email n = []"
  then show "trash cast now ts p s = (Inl ServerError, s)"
    by (simp add: trash_found save_invalid)
next
  assume "cast p = Some i \<and> findById s i = None"
  then show "trash cast now ts p s = (Inl NotFound, s)" by (simp add: trash_def)
next
  assume "cast p = None"
  then show "trash cast now ts p s = (Inl ServerError, s)" by (simp add: trash_def)
qed

theorem trash_sets_deleted_or_fails_witness:
  "castObjectId id_1 = Some 1 \<and> findById [note_a, note_b] 1 = Some note_a
   \<and> email note_a \<noteq> []
   \<and> trash castObjectId 200 201 id_1 [note_a, note_b]
       = (Inr (note_a\<lparr>deleted := True, deletedAt := Some 200, updatedAt := 201\<rparr>),
          [note_a\<lparr>deleted := True, deletedAt := Some 200, updatedAt := 201\<rparr>, note_b])
   \<and> castObjectId id_7 = Some 7 \<and> findById [note_a, note_b] 7 = None
   \<and> trash castObjectId 200 201 id_7 [note_a, note_b] = (Inl NotFound, [note_a, note_b])
   \<and> trash castObjectId 200 201 ''abc'' [note_a, note_b] = (Inl ServerError, [note_a, note_b])
   \<and> findById [note_e, note_b] 1 = Some note_e \<and> email note_e = []
   \<and> trash castObjectId 200 201 id_1 [note_e, note_b] = (Inl ServerError, [note_e, note_b])"
  using trash_sets_deleted_or_fails [of castObjectId id_1 1 "[note_a, note_b]" note_a 200 201]
    trash_sets_deleted_or_fails [of castObjectId id_7 7 "[note_a, note_b]" note_a 200 201]
    trash_sets_deleted_or_fails [of castObjectId "''abc''" 1 "[note_a, note_b]" note_a 200 201]
    trash_sets_deleted_or_fails [of castObjectId id_1 1 "[note_e, note_b]" note_e 200 201]
  by (simp add: cast_samples trash_def save_def validate_def Let_def
      note_a_def note_b_def note_e_def)

text \<open>
  Claim C9, as stated, fails on a note in the trash whose \<open>email\<close> is empty, as a
  partial update can leave it: the save fails validation, the soft delete answers a
  server error and \<open>deletedAt\<close> keeps its old value.
\<close>

theorem trash_again_fails_counterexample:
  "snd (updateNote castObjectId 160 id_1 body_blank_email
          (snd (trash castObjectId 150 150 id_1 [note_a]))) = [note_f]
   \<and> findById [note_f] 1 = Some note_f
   \<and> deleted note_f = True \<and> deletedAt note_f = Some 150
   \<and> trash castObjectId 300 301 id_1 [note_f] = (Inl ServerError, [note_f])"
  by (simp add: cast_samples trash_def updateNote_def save_def validate_def apply_set_def
      or_default_def Let_def body_blank_email_def empty_body_def note_f_def note_e_def
      note_a_def)

text \<open>
  Claim C9, amended. A soft delete does not look at the \<open>deleted\<close> state of the note: on
  a note that is already in the trash and has a non-empty \<open>email\<close> it succeeds and the
  stored note has \<open>deletedAt = now\<close>, whatever \<open>deletedAt\<close> was before. The retention
  window starts again: at any later time \<open>t\<close> and for any retention setting, the purge
  query matches the note exactly when \<open>now \<le> t - retention\<close>.
\<close>

theorem trash_again_restarts_retention:
  assumes "cast p = Some i" and "findById s i = Some n" and "deleted n = True"
    and "email n \<noteq> []"
  shows "\<exists>d. fst (trash cast now ts p s) = Inr d
    \<and> findById (snd (trash cast now ts p s)) i = Some d
    \<and> deleted d = True \<and> deletedAt d = Some now
    \<and> (\<forall>env t. purge_query (purge_cutoff (TRASH_RETENTION_DAYS env) t) d
          = (now \<le> t - TRASH_RETENTION_DAYS env * 86400000))"
proof -
  let ?doc = "n\<lparr>deleted := True, deletedAt := Some now\<rparr>"
  from assms(4) have "email ?doc \<noteq> []" by simp
  then obtain d s' where sv: "save ts n ?doc s = Some (d, s')"
    using save_valid_Some by blast
  have o: "oid ?doc = i" using assms(2) by (simp add: findById_Some_oid)
  have r: "trash cast now ts p s = (Inr d, s')"
    using assms(1,2) sv by (simp add: trash_found)
  have f: "findById s' i = Some d"
    using sv assms(2) o by (rule save_Some_found)
  have e: "d = ?doc\<lparr>updatedAt := updatedAt d\<rparr>"
    using sv by (rule save_Some_frame)
  have v: "deleted d = True" "deletedAt d = Some now"
    by (subst e, simp)+
  have q: "purge_query (purge_cutoff (TRASH_RETENTION_DAYS env) t) d
          = (now \<le> t - TRASH_RETENTION_DAYS env * 86400000)" for env t
    using v by (simp add: purge_query_def purge_cutoff_def mult.commute)
  show ?thesis
    using r v f q by (intro exI [of _ d]) simp
qed

theorem trash_again_restarts_retention_witness:
  "castObjectId id_2 = Some 2 \<and> findById [note_a, note_b] 2 = Some note_b
   \<and> deleted note_b = True \<and> email note_b \<noteq> [] \<and> deletedAt note_b = Some 150
   \<and> trash castObjectId 300 301 id_2 [note_a, note_b]
       = (Inr (note_b\<lparr>deletedAt := Some 300, updatedAt := 301\<rparr>),
          [note_a, note_b\<lparr>deletedAt := Some 300, updatedAt := 301\<rparr>])
   \<and> purge_query (purge_cutoff (TRASH_RETENTION_DAYS None) (200 + 7 * 86400000)) note_b
   \<and> \<not> purge_query (purge_cutoff (TRASH_RETENTION_DAYS None) (200 + 7 * 86400000))
         (note_b\<lparr>deletedAt := Some 300, updatedAt := 301\<rparr>)"
proof -
  have h: "castObjectId id_2 = Some 2" "findById [note_a, note_b] 2 = Some note_b"
      "deleted note_b = True" "email note_b \<noteq> []"
    by (simp_all add: cast_samples note_a_def note_b_def)
  show ?thesis
    using h trash_again_restarts_retention [where cast = castObjectId and p = id_2, OF h, of 300 301]
    by (simp add: trash_def save_def validate_def Let_def purge_query_def purge_cutoff_def
        TRASH_RETENTION_DAYS_def note_a_def note_b_def)
qed

text \<open>
  Claim C3, as stated for every existing note, fails on a note that is already in the
  trash: the soft delete and the restore leave it with \<open>deleted = false\<close> and
  \<open>deletedAt = null\<close>, which it did not have before.
\<close>

theorem trash_then_restore_counterexample:
  "castObjectId id_2 = Some 2 \<and> findById [note_b] 2 = Some note_b
   \<and> deleted note_b = True \<and> deletedAt note_b = Some 150
   \<and> findById (snd (restore castObjectId 202 id_2
                       (snd (trash castObjectId 200 201 id_2 [note_b])))) 2
       = Some (note_b\<lparr>deleted := False, deletedAt := None, updatedAt := 202\<rparr>)"
  by (simp add: cast_samples trash_def restore_def save_def validate_def Let_def note_b_def)

text \<open>
  Claim C3, amended. For every existing note that is active (\<open>deleted = false\<close> and
  \<open>deletedAt = null\<close>), after a soft delete followed by a restore the note stored under
  the id equals the original in every field but \<open>updatedAt\<close>. When its \<open>email\<close> is not
  empty, the restore answers with the original note with \<open>updatedAt\<close> set to the time
  of its save, and the collection is the original one with that note written; when its
  \<open>email\<close> is empty, both requests answer a server error and write nothing.
\<close>

theorem trash_then_restore_active:
  assumes "cast p = Some i" and "findById s i = Some n"
    and "deleted n = False" and "deletedAt n = None"
  shows "\<exists>d. findById (snd (restore cast t2 p (snd (trash cast now t1 p s)))) i = Some d
      \<and> d\<lparr>updatedAt := updatedAt n\<rparr> = n
      \<and> (email n \<noteq> [] \<longrightarrow>
            d = n\<lparr>updatedAt := t2\<rparr>
          \<and> fst (restore cast t2 p (snd (trash cast now t1 p s))) = Inr d
          \<and> snd (restore cast t2 p (snd (trash cast now t1 p s))) = updateOne s d)
      \<and> (email n = [] \<longrightarrow>
            d = n
          \<and> trash cast now t1 p s = (Inl ServerError, s)
          \<and> restore cast t2 p (snd (trash cast now t1 p s)) = (Inl ServerError, s))"
proof (cases "email n = []")
  case True
  have t: "trash cast now t1 p s = (Inl ServerError, s)"
    using assms(1,2) True by (simp add: trash_found save_invalid)
  have r: "restore cast t2 p s = (Inl ServerError, s)"
    using assms(1,2) True by (simp add: restore_found save_invalid)
  show ?thesis
    using t r assms(2) True by (intro exI [of _ n]) simp
next
  case False
  let ?d1 = "n\<lparr>deleted := True, deletedAt := Some now, updatedAt := t1\<rparr>"
  let ?d2 = "n\<lparr>updatedAt := t2\<rparr>"
  have i: "oid n = i" using assms(2) by (rule findById_Some_oid)
  have "n\<lparr>deleted := True, deletedAt := Some now\<rparr> \<noteq> n"
  proof
    assume "n\<lparr>deleted := True, deletedAt := Some now\<rparr> = n"
    then have "deleted (n\<lparr>deleted := True, deletedAt := Some now\<rparr>) = deleted n" by simp
    with assms(3) show False by simp
  qed
  then have t: "trash cast now t1 p s = (Inr ?d1, updateOne s ?d1)"
    using assms(1,2) False by (simp add: trash_found save_modified)
  have f1: "findById (updateOne s ?d1) i = Some ?d1"
    using assms(2) i by (simp add: findById_updateOne_found)
  have "?d1\<lparr>deleted := False, deletedAt := None\<rparr> \<noteq> ?d1"
  proof
    assume "?d1\<lparr>deleted := False, deletedAt := None\<rparr> = ?d1"
    then have "deleted (?d1\<lparr>deleted := False, deletedAt := None\<rparr>) = deleted ?d1" by simp
    then show False by simp
  qed
  then have r: "restore cast t2 p (updateOne s ?d1)
      = (Inr (?d1\<lparr>deleted := False, deletedAt := None, updatedAt := t2\<rparr>),
         updateOne (updateOne s ?d1) (?d1\<lparr>deleted := False, deletedAt := None, updatedAt := t2\<rparr>))"
    using assms(1) f1 False by (simp add: restore_found save_modified)
  have e: "?d1\<lparr>deleted := False, deletedAt := None, updatedAt := t2\<rparr> = ?d2"
    using assms(3,4) by simp
  have u: "updateOne (updateOne s ?d1) ?d2 = updateOne s ?d2"
    by (simp add: updateOne_updateOne)
  have f2: "findById (updateOne s ?d2) i = Some ?d2"
    using assms(2) i by (simp add: findById_updateOne_found)
  show ?thesis
    using t r e u f2 False by (intro exI [of _ ?d2]) simp
qed

theorem trash_then_restore_active_witness:
  "castObjectId id_1 = Some 1 \<and> findById [note_a, note_b] 1 = Some note_a
   \<and> deleted note_a = False \<and> deletedAt note_a = None \<and> email note_a \<noteq> []
   \<and> fst (restore castObjectId 202 id_1 (snd (trash castObjectId 200 201 id_1 [note_a, note_b])))
       = Inr (note_a\<lparr>updatedAt := 202\<rparr>)
   \<and> snd (restore castObjectId 202 id_1 (snd (trash castObjectId 200 201 id_1 [note_a, note_b])))
       = [note_a\<lparr>updatedAt := 202\<rparr>, note_b]
   \<and> findById [note_e, note_b] 1 = Some note_e
   \<and> deleted note_e = False \<and> deletedAt note_e = None \<and> email note_e = []
   \<and> restore castObjectId 202 id_1 (snd (trash castObjectId 200 201 id_1 [note_e, note_b]))
       = (Inl ServerError, [note_e, note_b])"
proof -
  have c: "castObjectId id_1 = Some 1" by (simp add: cast_samples)
  have a: "findById [note_a, note_b] 1 = Some note_a" "deleted note_a = False"
      "deletedAt note_a = None"
    by (simp_all add: note_a_def)
  have b: "findById [note_e, note_b] 1 = Some note_e" "deleted note_e = False"
      "deletedAt note_e = None"
    by (simp_all add: note_e_def note_a_def)
  have ea: "email note_a \<noteq> []" and ee: "email note_e = []"
    by (simp_all add: note_e_def note_a_def)
  show ?thesis
    using c a b ea ee
      trash_then_restore_active [where cast = castObjectId and p = id_1, OF c a, of 202 200 201]
      trash_then_restore_active [where cast = castObjectId and p = id_1, OF c b, of 202 200 201]
    by (auto simp: note_a_def)
qed

section \<open>Toggles\<close>

text \<open>
  Claim C6, as stated, fails: the save of a toggle also sets \<open>updatedAt\<close>, so the
  toggled note differs from the original in a second field. And on a note whose
  \<open>email\<close> is empty, as a partial update can leave it, the save fails validation and
  the toggle changes no field at all.
\<close>

theorem toggle_changes_updatedAt_counterexample:
  "castObjectId id_1 = Some 1 \<and> findById [note_a] 1 = Some note_a
   \<and> fst (togglePin castObjectId 200 id_1 [note_a])
       = Inr (note_a\<lparr>pinned := True, updatedAt := 200\<rparr>)
   \<and> updatedAt note_a = 100
   \<and> note_a\<lparr>pinned := True, updatedAt := 200\<rparr> \<noteq> note_a\<lparr>pinned := True\<rparr>
   \<and> snd (updateNote castObjectId 160 id_1 body_blank_email [note_a]) = [note_e]
   \<and> togglePin castObjectId 200 id_1 [note_e] = (Inl ServerError, [note_e])"
  by (simp add: cast_samples togglePin_def updateNote_def save_def validate_def apply_set_def
      or_default_def Let_def body_blank_email_def empty_body_def note_e_def note_a_def)

text \<open>
  Claim C6, amended. For every existing note with a non-empty \<open>email\<close>, whatever its
  \<open>deleted\<close> state, the pin toggle answers with and stores the note with \<open>pinned\<close>
  negated and \<open>updatedAt\<close> set to the time of the save, and every other field as it
  was; likewise the archive toggle with \<open>archived\<close>. On an existing note whose \<open>email\<close>
  is empty either toggle answers a server error and leaves the collection as it was.
\<close>

theorem toggle_changes_one_flag:
  assumes "cast p = Some i" and "findById s i = Some n"
  shows "(email n \<noteq> [] \<longrightarrow>
        fst (togglePin cast ts p s) = Inr (n\<lparr>pinned := \<not> pinned n, updatedAt := ts\<rparr>)
      \<and> findById (snd (togglePin cast ts p s)) i
          = Some (n\<lparr>pinned := \<not> pinned n, updatedAt := ts\<rparr>)
      \<and> fst (toggleArchive cast ts p s) = Inr (n\<lparr>archived := \<not> archived n, updatedAt := ts\<rparr>)
      \<and> findById (snd (toggleArchive cast ts p s)) i
          = Some (n\<lparr>archived := \<not> archived n, updatedAt := ts\<rparr>))
    \<and> (email n = [] \<longrightarrow>
        togglePin cast ts p s = (Inl ServerError, s)
      \<and> toggleArchive cast ts p s = (Inl ServerError, s))"
proof -
  have i: "oid n = i" using assms(2) by (rule findById_Some_oid)
  show ?thesis
    using assms i
    by (simp add: togglePin_found_valid toggleArchive_found_valid togglePin_found_invalid
        toggleArchive_found_invalid findById_updateOne_found)
qed

theorem toggle_changes_one_flag_witness:
  "castObjectId id_2 = Some 2 \<and> findById [note_a, note_b] 2 = Some note_b
   \<and> deleted note_b = True \<and> email note_b \<noteq> []
   \<and> fst (togglePin castObjectId 200 id_2 [note_a, note_b])
       = Inr (note_b\<lparr>pinned := False, updatedAt := 200\<rparr>)
   \<and> fst (toggleArchive castObjectId 200 id_2 [note_a, note_b])
       = Inr (note_b\<lparr>archived := True, updatedAt := 200\<rparr>)
   \<and> castObjectId id_1 = Some 1 \<and> findById [note_e, note_b] 1 = Some note_e
   \<and> email note_e = []
   \<and> togglePin castObjectId 200 id_1 [note_e, note_b] = (Inl ServerError, [note_e, note_b])
   \<and> toggleArchive castObjectId 200 id_1 [note_e, note_b] = (Inl ServerError, [note_e, note_b])"
proof -
  have h: "castObjectId id_2 = Some 2" "findById [note_a, note_b] 2 = Some note_b"
    by (simp_all add: cast_samples note_a_def note_b_def)
  have g: "castObjectId id_1 = Some 1" "findById [note_e, note_b] 1 = Some note_e"
    by (simp_all add: cast_samples note_e_def note_a_def)
  have e: "email note_b \<noteq> []" "email note_e = []" "deleted note_b = True"
    by (simp_all add: note_b_def note_e_def)
  show ?thesis
    using h g e
      toggle_changes_one_flag [where cast = castObjectId and p = id_2, OF h, of 200]
      toggle_changes_one_flag [where cast = castObjectId and p = id_1, OF g, of 200]
    by (simp add: note_b_def)
qed

text \<open>
  Claim C7, as stated, fails in its second half: on an existing note whose \<open>email\<close> is
  empty, as a partial update can leave it, one pin toggle does not write the negation
  of \<open>pinned\<close>; its save fails validation and it answers a server error.
\<close>

theorem togglePin_no_write_counterexample:
  "snd (updateNote castObjectId 160 id_1 body_blank_email [note_a]) = [note_e]
   \<and> castObjectId id_1 = Some 1 \<and> findById [note_e] 1 = Some note_e
   \<and> togglePin castObjectId 200 id_1 [note_e] = (Inl ServerError, [note_e])
   \<and> pinned note_e = False"
  by (simp add: cast_samples togglePin_def updateNote_def save_def validate_def apply_set_def
      or_default_def Let_def body_blank_email_def empty_body_def note_e_def note_a_def)

text \<open>
  Claim C7, amended. For every existing note, after two pin toggles in succession the
  note stored under the id has the original \<open>pinned\<close>. When the \<open>email\<close> of the note
  is not empty, the first toggle answers with and stores \<open>pinned\<close> negated, and the
  second answers with the note it stores; when the \<open>email\<close> is empty, a toggle answers
  a server error and writes nothing.
\<close>

theorem togglePin_twice:
  assumes "cast p = Some i" and "findById s i = Some n"
  shows "\<exists>d2. findById (snd (togglePin cast t2 p (snd (togglePin cast t1 p s)))) i = Some d2
    \<and> pinned d2 = pinned n
    \<and> (email n \<noteq> [] \<longrightarrow>
         (\<exists>d1. fst (togglePin cast t1 p s) = Inr d1
            \<and> findById (snd (togglePin cast t1 p s)) i = Some d1
            \<and> pinned d1 = (\<not> pinned n))
         \<and> fst (togglePin cast t2 p (snd (togglePin cast t1 p s))) = Inr d2)
    \<and> (email n = [] \<longrightarrow> togglePin cast t1 p s = (Inl ServerError, s))"
proof (cases "email n = []")
  case True
  have a: "togglePin cast t ps s = (Inl ServerError, s)" if "cast ps = Some i" for t ps
    using that assms(2) True by (rule togglePin_found_invalid)
  show ?thesis
    using a [OF assms(1)] assms(2) True by (intro exI [of _ n]) simp
next
  case False
  let ?d1 = "n\<lparr>pinned := \<not> pinned n, updatedAt := t1\<rparr>"
  let ?d2 = "?d1\<lparr>pinned := \<not> pinned ?d1, updatedAt := t2\<rparr>"
  have i: "oid n = i" using assms(2) by (rule findById_Some_oid)
  have a: "togglePin cast t1 p s = (Inr ?d1, updateOne s ?d1)"
    using assms False by (rule togglePin_found_valid)
  have f1: "findById (updateOne s ?d1) i = Some ?d1"
    using assms(2) i by (simp add: findById_updateOne_found)
  have v1: "email ?d1 \<noteq> []" using False by simp
  have b: "togglePin cast t2 p (updateOne s ?d1) = (Inr ?d2, updateOne (updateOne s ?d1) ?d2)"
    using assms(1) f1 v1 by (rule togglePin_found_valid)
  have f2: "findById (updateOne (updateOne s ?d1) ?d2) i = Some ?d2"
    using f1 i by (simp add: findById_updateOne_found)
  show ?thesis
    using a b f1 f2 False by (intro exI [of _ ?d2]) simp
qed

theorem togglePin_twice_witness:
  "castObjectId id_1 = Some 1 \<and> findById [note_a, note_b] 1 = Some note_a
   \<and> email note_a \<noteq> []
   \<and> fst (togglePin castObjectId 201 id_1 [note_a, note_b])
       = Inr (note_a\<lparr>pinned := True, updatedAt := 201\<rparr>)
   \<and> findById (snd (togglePin castObjectId 202 id_1
                       (snd (togglePin castObjectId 201 id_1 [note_a, note_b])))) 1
       = Some (note_a\<lparr>updatedAt := 202\<rparr>)
   \<and> pinned (note_a\<lparr>updatedAt := 202\<rparr>) = pinned note_a"
proof -
  have h: "castObjectId id_1 = Some 1" "findById [note_a, note_b] 1 = Some note_a"
    by (simp_all add: cast_samples note_a_def)
  show ?thesis
    using h togglePin_twice [where cast = castObjectId and p = id_1, OF h, of 202 201]
    by (simp add: togglePin_def save_def validate_def Let_def note_a_def note_b_def)
qed

text \<open>
  Claim C8, as stated, fails on an \<^verbatim>\<open>:id\<close> that is no ObjectId: it resolves to no note,
  yet the pin toggle answers a server error, not NotFound.
\<close>

theorem togglePin_malformed_id_counterexample:
  "castObjectId ''abc'' = None
   \<and> togglePin castObjectId 200 ''abc'' [note_a, note_b] = (Inl ServerError, [note_a, note_b])"
  by (simp add: cast_samples togglePin_def)

text \<open>
  Claim C8, amended. A pin toggle on an id that casts to an ObjectId and does not
  resolve to a note answers NotFound; on an id that does not cast it answers a server
  error. Either way it returns the collection as it was: no note is created or
  modified.
\<close>

theorem togglePin_unresolved:
  "(cast p = Some i \<and> findById s i = None \<longrightarrow> togglePin cast ts p s = (Inl NotFound, s))
   \<and> (cast p = None \<longrightarrow> togglePin cast ts p s = (Inl ServerError, s))"
  by (simp add: togglePin_def)

theorem togglePin_unresolved_witness:
  "castObjectId id_7 = Some 7 \<and> findById [note_a, note_b] 7 = None
   \<and> togglePin castObjectId 200 id_7 [note_a, note_b] = (Inl NotFound, [note_a, note_b])
   \<and> castObjectId ''abc'' = None
   \<and> togglePin castObjectId 200 ''abc'' [note_a, note_b] = (Inl ServerError, [note_a, note_b])"
  using togglePin_unresolved [of castObjectId id_7 7 "[note_a, note_b]" 200]
    togglePin_unresolved [of castObjectId "''abc''" 7 "[note_a, note_b]" 200]
  by (simp add: cast_samples note_a_def note_b_def)

section \<open>The active listing\<close>

text \<open>
  Claim C5. For every email \<open>x\<close>, the active listing holds exactly the notes of the
  collection with \<open>email = x\<close> and \<open>deleted = false\<close>, each as often as the collection
  does; a note stands before another only if it is pinned and the other is not, or
  both have the same \<open>pinned\<close> and it was not created earlier; no listed note has
  \<open>deleted = true\<close>.
\<close>

theorem getNotesByEmail_exact_and_ordered:
  "mset (getNotesByEmail s x) = filter_mset (\<lambda>n. email n = x \<and> deleted n = False) (mset s)
   \<and> set (getNotesByEmail s x) = {n \<in> set s. email n = x \<and> deleted n = False}
   \<and> sorted_wrt (\<lambda>a b. pinned a \<and> \<not> pinned b
                        \<or> pinned a = pinned b \<and> createdAt b \<le> createdAt a)
        (getNotesByEmail s x)
   \<and> list_all (\<lambda>n. deleted n = False) (getNotesByEmail s x)"
proof (intro conjI)
  show m: "mset (getNotesByEmail s x)
      = filter_mset (\<lambda>n. email n = x \<and> deleted n = False) (mset s)"
    by (simp add: getNotesByEmail_def mset_sort_by)
  show st: "set (getNotesByEmail s x) = {n \<in> set s. email n = x \<and> deleted n = False}"
    by (simp add: getNotesByEmail_def set_sort_by)
  have "sorted_wrt pinned_createdAt_desc (getNotesByEmail s x)"
    unfolding getNotesByEmail_def
    by (rule sorted_wrt_sort_by) (rule pinned_createdAt_desc_total, rule pinned_createdAt_desc_trans)
  then show "sorted_wrt (\<lambda>a b. pinned a \<and> \<not> pinned b
                        \<or> pinned a = pinned b \<and> createdAt b \<le> createdAt a)
        (getNotesByEmail s x)"
    by (simp add: pinned_createdAt_desc_iff [abs_def])
  show "list_all (\<lambda>n. deleted n = False) (getNotesByEmail s x)"
    using st by (simp add: list_all_iff)
qed

theorem getNotesByEmail_exact_and_ordered_witness:
  "getNotesByEmail [note_a, note_b, note_c, note_d, note_b\<lparr>oid := 5, deleted := False, deletedAt := None\<rparr>] ''u@e.com''
     = [note_b\<lparr>oid := 5, deleted := False, deletedAt := None\<rparr>, note_d, note_a]
   \<and> sorted_wrt (\<lambda>a b. pinned a \<and> \<not> pinned b
                        \<or> pinned a = pinned b \<and> createdAt b \<le> createdAt a)
        [note_b\<lparr>oid := 5, deleted := False, deletedAt := None\<rparr>, note_d, note_a]"
  using getNotesByEmail_exact_and_ordered
    [of "[note_a, note_b, note_c, note_d, note_b\<lparr>oid := 5, deleted := False, deletedAt := None\<rparr>]" "''u@e.com''"]
  by (simp add: getNotesByEmail_def sort_by_def pinned_createdAt_desc_def
      note_a_def note_b_def note_c_def note_d_def)

section \<open>The purge job\<close>

text \<open>
  Claim C2. One run of the purge job at time \<open>now\<close>, with
  \<open>cutoff = now - retention\<close> (the retention days in milliseconds), leaves exactly the
  notes that do not have \<open>deleted = true\<close> and a \<open>deletedAt\<close> at or before the cutoff:
  every note with both is gone, every note whose \<open>deletedAt\<close> is later than the cutoff
  is still there, and the count reported is the number of notes removed.
\<close>

theorem purge_removes_exactly_the_expired:
  "snd (purge env now s)
     = filter (\<lambda>n. \<not> (deleted n = True
          \<and> (\<exists>t. deletedAt n = Some t \<and> t \<le> now - TRASH_RETENTION_DAYS env * 86400000))) s
   \<and> (\<forall>n \<in> set s. deleted n = True
          \<and> (\<exists>t. deletedAt n = Some t \<and> t \<le> now - TRASH_RETENTION_DAYS env * 86400000)
        \<longrightarrow> n \<notin> set (snd (purge env now s)))
   \<and> (\<forall>n \<in> set s. (\<exists>t. deletedAt n = Some t \<and> now - TRASH_RETENTION_DAYS env * 86400000 < t)
        \<longrightarrow> n \<in> set (snd (purge env now s)))
   \<and> fst (purge env now s) + length (snd (purge env now s)) = length s"
proof -
  have q: "purge_query (purge_cutoff (TRASH_RETENTION_DAYS env) now) n
      = (deleted n = True
          \<and> (\<exists>t. deletedAt n = Some t \<and> t \<le> now - TRASH_RETENTION_DAYS env * 86400000))" for n
    by (auto simp: purge_query_def purge_cutoff_def mult.commute split: option.splits)
  have f: "snd (purge env now s)
     = filter (\<lambda>n. \<not> (deleted n = True
          \<and> (\<exists>t. deletedAt n = Some t \<and> t \<le> now - TRASH_RETENTION_DAYS env * 86400000))) s"
    by (simp add: purge_def deleteMany_def q)
  have l: "fst (purge env now s) + length (snd (purge env now s)) = length s"
    by (simp add: purge_def deleteMany_def sum_length_filter_compl)
  show ?thesis
    apply (intro conjI)
       apply (rule f)
      apply (subst f, simp)
     apply (subst f, auto)[1]
    apply (rule l)
    done
qed

theorem purge_removes_exactly_the_expired_witness:
  "purge None (150 + 7 * 86400000) [note_a, note_b, note_c, note_d] = (1, [note_a, note_c, note_d])
   \<and> deleted note_b = True \<and> deletedAt note_b = Some 150
   \<and> purge None (149 + 7 * 86400000) [note_a, note_b, note_c, note_d]
       = (0, [note_a, note_b, note_c, note_d])"
  using purge_removes_exactly_the_expired [of None "150 + 7 * 86400000" "[note_a, note_b, note_c, note_d]"]
    purge_removes_exactly_the_expired [of None "149 + 7 * 86400000" "[note_a, note_b, note_c, note_d]"]
  by (simp add: purge_def deleteMany_def purge_query_def purge_cutoff_def TRASH_RETENTION_DAYS_def
      note_a_def note_b_def note_c_def note_d_def)

text \<open>
  Claim C10. The purge job removes no note whose \<open>deletedAt\<close> is null, whatever its
  \<open>deleted\<close> flag.
\<close>

theorem purge_keeps_null_deletedAt:
  "\<forall>n \<in> set s. deletedAt n = None \<longrightarrow> n \<in> set (snd (purge env now s))"
  by (simp add: purge_def deleteMany_def purge_query_def)

theorem purge_keeps_null_deletedAt_witness:
  "deleted note_c = True \<and> deletedAt note_c = None
   \<and> note_c \<in> set (snd (purge None 1000000000000 [note_b, note_c]))
   \<and> snd (purge None 1000000000000 [note_b, note_c]) = [note_c]"
  using purge_keeps_null_deletedAt [of "[note_b, note_c]" None 1000000000000]
  by (simp add: purge_def deleteMany_def purge_query_def purge_cutoff_def TRASH_RETENTION_DAYS_def
      note_b_def note_c_def)

section \<open>The invariant of the trash fields over the operations\<close>

text \<open>
  Claim C1, as stated, fails for the partial update: a body that carries \<open>deleted\<close>
  alone leaves a note with \<open>deleted = true\<close> and \<open>deletedAt = null\<close>.
\<close>

theorem trash_invariant_broken_by_update_counterexample:
  "store_inv [note_a]
   \<and> snd (updateNote castObjectId 200 id_1 body_deleted_only [note_a])
       = [note_a\<lparr>deleted := True, updatedAt := 200\<rparr>]
   \<and> \<not> store_inv (snd (updateNote castObjectId 200 id_1 body_deleted_only [note_a]))"
  by (simp add: cast_samples updateNote_def apply_set_def or_default_def store_inv_def
      note_inv_def body_deleted_only_def empty_body_def note_a_def Let_def)

text \<open>
  Claim C1, amended. In a collection where every note has \<open>deleted = true\<close> exactly
  when \<open>deletedAt\<close> is not null, this still holds after a create, a soft delete, a
  restore, either toggle, a permanent delete and a run of the purge job; it holds after
  a partial update whose body sets neither \<open>deleted\<close> nor \<open>deletedAt\<close>, or sets both in
  agreement.
\<close>

theorem trash_invariant_preserved:
  assumes "store_inv s"
  shows "store_inv (snd (createNote new_id now b s))
    \<and> store_inv (snd (trash cast now ts p s))
    \<and> store_inv (snd (restore cast ts p s))
    \<and> store_inv (snd (togglePin cast ts p s))
    \<and> store_inv (snd (toggleArchive cast ts p s))
    \<and> store_inv (snd (deleteNote cast p s))
    \<and> store_inv (snd (purge env now s))
    \<and> (body_keeps_inv b \<longrightarrow> store_inv (snd (updateNote cast now p b s)))"
  using assms
  by (simp add: store_inv_createNote store_inv_trash store_inv_restore store_inv_togglePin
      store_inv_toggleArchive store_inv_deleteNote store_inv_purge store_inv_updateNote)

theorem trash_invariant_preserved_witness:
  "store_inv [note_a, note_b]
    \<and> store_inv (snd (createNote 9 200 body_title_only [note_a, note_b]))
    \<and> store_inv (snd (trash castObjectId 200 201 id_1 [note_a, note_b]))
    \<and> store_inv (snd (restore castObjectId 201 id_2 [note_a, note_b]))
    \<and> store_inv (snd (togglePin castObjectId 201 id_1 [note_a, note_b]))
    \<and> store_inv (snd (toggleArchive castObjectId 201 id_1 [note_a, note_b]))
    \<and> store_inv (snd (deleteNote castObjectId id_1 [note_a, note_b]))
    \<and> store_inv (snd (purge None 200 [note_a, note_b]))
    \<and> body_keeps_inv body_title_only
    \<and> snd (updateNote castObjectId 200 id_1 body_title_only [note_a, note_b])
        = [note_a\<lparr>title := ''T'', updatedAt := 200\<rparr>, note_b]
    \<and> store_inv (snd (updateNote castObjectId 200 id_1 body_title_only [note_a, note_b]))"
proof -
  have s: "store_inv [note_a, note_b]"
    by (simp add: store_inv_def note_inv_def note_a_def note_b_def)
  have k: "body_keeps_inv body_title_only"
    by (simp add: body_keeps_inv_def body_title_only_def empty_body_def)
  have u: "snd (updateNote castObjectId 200 id_1 body_title_only [note_a, note_b])
        = [note_a\<lparr>title := ''T'', updatedAt := 200\<rparr>, note_b]"
    by (simp add: cast_samples updateNote_def apply_set_def or_default_def Let_def
        body_title_only_def empty_body_def note_a_def note_b_def)
  show ?thesis
    using s k u
      trash_invariant_preserved [OF s, of 9 200 body_title_only castObjectId 201 id_1 None]
      trash_invariant_preserved [OF s, of 9 200 body_title_only castObjectId 201 id_2 None]
    by simp
qed

end
